theory Spec2Isabelle
  imports Complex_Main "HOL-Library.Multiset"
begin

unbundle bit_operations_syntax

section \<open>ping-sweepv2: a parallel ping sweep over a CIDR range\<close>

text \<open>
  The development follows \<^verbatim>\<open>ping_sweepv2.py\<close> function by function:
  \<^verbatim>\<open>get_ping_command\<close>, \<^verbatim>\<open>ping_once\<close>, \<^verbatim>\<open>sweep_network\<close> and \<^verbatim>\<open>main\<close>.
  What the program takes from its surroundings is a parameter of the model: the name of
  the operating system, the \<^verbatim>\<open>ping\<close> subprocess, the reading of the CIDR text, the
  printing of an address, and the order in which \<^verbatim>\<open>as_completed\<close> yields the
  futures.
\<close>

subsection \<open>Python values\<close>

text \<open>
  The exceptions that occur in the program. All of them are subclasses of Python's
  \<^verbatim>\<open>Exception\<close>; \<open>OtherException\<close> stands for any other subclass of it
  (\<^verbatim>\<open>PermissionError\<close>, \<^verbatim>\<open>OSError\<close>, ...), with its text.
\<close>

datatype exn =
    ValueError
  | FileNotFoundError
  | RuntimeError string
  | OtherException string

text \<open>\<^verbatim>\<open>isinstance(e, RuntimeError)\<close>\<close>

fun is_RuntimeError :: "exn \<Rightarrow> bool" where
  "is_RuntimeError (RuntimeError m) = True"
| "is_RuntimeError e = False"

text \<open>\<^verbatim>\<open>str(n)\<close> of a Python integer: its decimal digits, with a sign when negative.\<close>

definition digit_char :: "nat \<Rightarrow> char" where
  "digit_char d = ''0123456789'' ! d"

function str_nat :: "nat \<Rightarrow> string" where
  "str_nat n = (if n < 10 then [digit_char n] else str_nat (n div 10) @ [digit_char (n mod 10)])"
  by pat_completeness auto
termination
  by (relation "measure (\<lambda>n. n)") auto

declare str_nat.simps [simp del]

definition str_int :: "int \<Rightarrow> string" where
  "str_int i = (if i < 0 then CHR ''-'' # str_nat (nat (- i)) else str_nat (nat i))"

subsection \<open>\<^verbatim>\<open>get_ping_command\<close>\<close>

text \<open>
  \<^verbatim>\<open>secs = max(1, int((timeout_ms + 999) // 1000))\<close>: Python's \<^verbatim>\<open>//\<close> on integers
  rounds towards minus infinity, as \<open>div\<close> on \<open>int\<close> does.
\<close>

definition secs :: "int \<Rightarrow> int" where
  "secs timeout_ms = max 1 ((timeout_ms + 999) div 1000)"

text \<open>The first argument is the value of \<^verbatim>\<open>platform.system()\<close>.\<close>

definition get_ping_command :: "string \<Rightarrow> string \<Rightarrow> int \<Rightarrow> string list" where
  "get_ping_command system ip timeout_ms =
     (if system = ''Windows''
      then [''ping'', ''-n'', ''1'', ''-w'', str_int timeout_ms, ip]
      else [''ping'', ''-c'', ''1'', ''-W'', str_int (secs timeout_ms), ip])"

subsection \<open>\<^verbatim>\<open>ping_once\<close>\<close>

text \<open>
  \<^verbatim>\<open>subprocess.run(cmd, ...)\<close> either raises or returns a completed process with a
  return code: it is a function from the command to \<open>exn + int\<close>. The call passes no
  \<^verbatim>\<open>timeout\<close> to \<^verbatim>\<open>subprocess.run\<close>. A \<^verbatim>\<open>FileNotFoundError\<close> becomes a
  \<^verbatim>\<open>RuntimeError\<close>; every other exception leaves \<^verbatim>\<open>ping_once\<close> as it is.
\<close>

definition ping_not_found :: string where
  "ping_not_found = [CHR 0x27] @ ''ping'' @ [CHR 0x27] @ '' command not found on this system''"

definition ping_once ::
  "string \<Rightarrow> (string list \<Rightarrow> exn + int) \<Rightarrow> string \<Rightarrow> int \<Rightarrow> exn + bool" where
  "ping_once system run ip timeout_ms =
     (let cmd = get_ping_command system ip timeout_ms in
      case run cmd of
        Inr returncode \<Rightarrow> Inr (returncode = 0)
      | Inl FileNotFoundError \<Rightarrow> Inl (RuntimeError ping_not_found)
      | Inl e \<Rightarrow> Inl e)"

subsection \<open>The \<^verbatim>\<open>ipaddress\<close> module\<close>

text \<open>
  \<^verbatim>\<open>ipaddress\<close> is Python's standard library. The part of it that the sweep depends
  on is modelled after CPython's \<^verbatim>\<open>Lib/ipaddress.py\<close>: an address is its integer, a
  network is a network address with a prefix length. The reading of the text (the
  address and the prefix length it denotes, or no network at all) and the printing of an
  address are parameters.
\<close>

datatype version = IPv4 | IPv6

fun max_prefixlen :: "version \<Rightarrow> nat" where
  "max_prefixlen IPv4 = 32"
| "max_prefixlen IPv6 = 128"

definition ALL_ONES :: "version \<Rightarrow> nat" where
  "ALL_ONES v = 2 ^ max_prefixlen v - 1"

text \<open>\<^verbatim>\<open>_ip_int_from_prefix\<close>: \<^verbatim>\<open>cls._ALL_ONES ^ (cls._ALL_ONES >> prefixlen)\<close>.\<close>

definition ip_int_from_prefix :: "version \<Rightarrow> nat \<Rightarrow> nat" where
  "ip_int_from_prefix v p = ALL_ONES v XOR drop_bit p (ALL_ONES v)"

text \<open>
  \<open>addr\<close> is the address as the text gave it, which \<^verbatim>\<open>__init__\<close> keeps for the
  \<^verbatim>\<open>hosts\<close> of a network of one address.
\<close>

record network =
  version :: version
  network_address :: nat
  prefixlen :: nat
  addr :: nat

definition netmask :: "network \<Rightarrow> nat" where
  "netmask net = ip_int_from_prefix (version net) (prefixlen net)"

definition hostmask :: "network \<Rightarrow> nat" where
  "hostmask net = netmask net XOR ALL_ONES (version net)"

definition broadcast_address :: "network \<Rightarrow> nat" where
  "broadcast_address net = network_address net OR hostmask net"

text \<open>
  \<^verbatim>\<open>ip_network(address, strict=False)\<close>: a text that is neither an IPv4 nor an IPv6
  network raises \<^verbatim>\<open>ValueError\<close>; host bits that are set are masked off.
\<close>

definition ip_network ::
  "(string \<Rightarrow> (version \<times> nat \<times> nat) option) \<Rightarrow> string \<Rightarrow> exn + network" where
  "ip_network parse address =
     (case parse address of
        None \<Rightarrow> Inl ValueError
      | Some (v, a, p) \<Rightarrow>
          Inr \<lparr>version = v, network_address = a AND ip_int_from_prefix v p,
               prefixlen = p, addr = a\<rparr>)"

text \<open>\<^verbatim>\<open>__iter__\<close>: \<^verbatim>\<open>range(network, broadcast + 1)\<close>.\<close>

definition addresses :: "network \<Rightarrow> nat list" where
  "addresses net = [network_address net ..< broadcast_address net + 1]"

text \<open>
  \<^verbatim>\<open>hosts\<close>: \<^verbatim>\<open>__init__\<close> replaces it by \<^verbatim>\<open>__iter__\<close> when the prefix leaves one
  bit, and by the one given address when it leaves none. Otherwise it is
  \<^verbatim>\<open>range(network + 1, broadcast)\<close> for IPv4 and \<^verbatim>\<open>range(network + 1, broadcast + 1)\<close>
  for IPv6.
\<close>

definition hosts :: "network \<Rightarrow> nat list" where
  "hosts net =
     (if prefixlen net = max_prefixlen (version net) - 1 then addresses net
      else if prefixlen net = max_prefixlen (version net) then [addr net]
      else (case version net of
              IPv4 \<Rightarrow> [network_address net + 1 ..< broadcast_address net]
            | IPv6 \<Rightarrow> [network_address net + 1 ..< broadcast_address net + 1]))"

subsection \<open>Logging\<close>

text \<open>
  A log record is its level and its message; a message is its format with its
  arguments. The elapsed time of the last message is left out.
\<close>

datatype level = INFO | ERROR | CRITICAL

datatype message =
    Starting_sweep string nat int
  | Host_is string string
  | Error_pinging string exn
  | Scan_finished nat nat
  | Text string

type_synonym log_record = "level \<times> message"

subsection \<open>\<^verbatim>\<open>sweep_network\<close>\<close>

text \<open>What surrounds the program.\<close>

record env =
  platform_system :: string
  subprocess_run :: "string list \<Rightarrow> exn + int"
  ip_parse :: "string \<Rightarrow> (version \<times> nat \<times> nat) option"
  ip_str :: "version \<Rightarrow> nat \<Rightarrow> string"

text \<open>\<^verbatim>\<open>hosts = [str(ip) for ip in net.hosts()]\<close>\<close>

definition host_list :: "env \<Rightarrow> network \<Rightarrow> string list" where
  "host_list e net = map (ip_str e (version net)) (hosts net)"

text \<open>
  A future is the address it was submitted for with what \<^verbatim>\<open>fut.result()\<close> does: it
  returns the value of \<^verbatim>\<open>ping_once\<close> or raises its exception.
  \<^verbatim>\<open>as_completed\<close> yields every future once: \<open>order\<close> lists the positions of
  the futures, in the order of submission, as they are yielded. It is not the order in
  which the probes complete: \<^verbatim>\<open>as_completed\<close> first yields the futures that are
  finished when it is entered, in the iteration order of a set, and then the others as
  they complete. All that the program can rely on is that \<open>order\<close> is a permutation of
  the positions.
\<close>

type_synonym future = "string \<times> (exn + bool)"

definition yield_order :: "nat \<Rightarrow> nat list \<Rightarrow> bool" where
  "yield_order n order \<longleftrightarrow> distinct order \<and> set order = {..<n}"

definition as_completed :: "future list \<Rightarrow> nat list \<Rightarrow> future list" where
  "as_completed futs order = map (\<lambda>i. futs ! i) order"

text \<open>
  \<^verbatim>\<open>futures = {executor.submit(ping_once, ip, timeout_ms): ip for ip in hosts}\<close>, in
  the order of submission.
\<close>

definition futures :: "env \<Rightarrow> int \<Rightarrow> string list \<Rightarrow> future list" where
  "futures e timeout_ms hs =
     map (\<lambda>ip. (ip, ping_once (platform_system e) (subprocess_run e) ip timeout_ms)) hs"

text \<open>The body of the loop over the completed futures, and the loop.\<close>

definition record_result ::
  "bool \<Rightarrow> future \<Rightarrow> (string \<times> bool) list \<times> log_record list
     \<Rightarrow> (string \<times> bool) list \<times> log_record list" where
  "record_result quiet fut st =
     (case (fut, st) of ((ip, r), (results, lg)) \<Rightarrow>
        let (up, log1) = (case r of
                            Inr b \<Rightarrow> (b, lg)
                          | Inl exc \<Rightarrow> (False, lg @ [(ERROR, Error_pinging ip exc)]));
            results1 = results @ [(ip, up)];
            log2 = (if \<not> quiet
                    then log1 @ [(INFO, Host_is ip (if up then ''UP'' else ''DOWN''))]
                    else log1)
        in (results1, log2))"

fun collect ::
  "bool \<Rightarrow> future list \<Rightarrow> (string \<times> bool) list \<times> log_record list
     \<Rightarrow> (string \<times> bool) list \<times> log_record list" where
  "collect quiet [] st = st"
| "collect quiet (fut # futs) st = collect quiet futs (record_result quiet fut st)"

text \<open>
  The entry that the body of the loop appends to \<^verbatim>\<open>results\<close> for a future:
  \<^verbatim>\<open>up\<close> is the value of \<^verbatim>\<open>fut.result()\<close>, or \<^verbatim>\<open>False\<close> when it raises.
\<close>

definition entry_of :: "future \<Rightarrow> string \<times> bool" where
  "entry_of fut = (fst fut, case snd fut of Inr b \<Rightarrow> b | Inl exc \<Rightarrow> False)"

text \<open>
  What a call of \<^verbatim>\<open>sweep_network\<close> does: it returns the results or raises, it has
  logged records, and it has run commands. \<^verbatim>\<open>ThreadPoolExecutor\<close> raises
  \<^verbatim>\<open>ValueError\<close> when \<^verbatim>\<open>max_workers\<close> is not positive. Leaving the \<^verbatim>\<open>with\<close> block
  waits for every submitted future, so the command of every host has run.
\<close>

record sweep =
  outcome :: "exn + (string \<times> bool) list"
  logged :: "log_record list"
  probed :: "string list list"

definition sweep_network ::
  "env \<Rightarrow> nat list \<Rightarrow> string \<Rightarrow> int \<Rightarrow> int \<Rightarrow> bool \<Rightarrow> sweep" where
  "sweep_network e order network_cidr threads timeout_ms quiet =
     (case ip_network (ip_parse e) network_cidr of
        Inl exc \<Rightarrow> \<lparr>outcome = Inl exc, logged = [], probed = []\<rparr>
      | Inr net \<Rightarrow>
          let hs = host_list e net;
              log0 = [(INFO, Starting_sweep network_cidr (length hs) threads)]
          in if threads \<le> 0
             then \<lparr>outcome = Inl ValueError, logged = log0, probed = []\<rparr>
             else
               let (results, lg) =
                     collect quiet (as_completed (futures e timeout_ms hs) order) ([], log0)
               in \<lparr>outcome = Inr results, logged = lg,
                    probed = map (\<lambda>ip. get_ping_command (platform_system e) ip timeout_ms) hs\<rparr>)"

subsection \<open>\<^verbatim>\<open>main\<close>\<close>

text \<open>
  How the process ends: \<^verbatim>\<open>main\<close> returns, it calls \<^verbatim>\<open>sys.exit\<close>, or an exception
  that nothing catches ends the interpreter, with status 1.
\<close>

datatype ending = Returned | Sys_exit int | Uncaught exn

fun exit_status :: "ending \<Rightarrow> int" where
  "exit_status Returned = 0"
| "exit_status (Sys_exit n) = n"
| "exit_status (Uncaught exc) = 1"

record process =
  ending :: ending
  records :: "log_record list"
  commands :: "string list list"

text \<open>The last four arguments are the parsed arguments of the command line.\<close>

definition main :: "env \<Rightarrow> nat list \<Rightarrow> string \<Rightarrow> int \<Rightarrow> int \<Rightarrow> bool \<Rightarrow> process" where
  "main e order a_network a_threads a_timeout a_quiet =
     (let s = sweep_network e order a_network (max 1 a_threads) (max 1 a_timeout) a_quiet in
      case outcome s of
        Inl (RuntimeError m) \<Rightarrow>
          \<lparr>ending = Sys_exit 1, records = logged s @ [(CRITICAL, Text m)], commands = probed s\<rparr>
      | Inl exc \<Rightarrow>
          \<lparr>ending = Uncaught exc, records = logged s, commands = probed s\<rparr>
      | Inr results \<Rightarrow>
          let up_count = length (filter snd results);
              total = length results
          in \<lparr>ending = Returned,
               records = logged s @ [(INFO, Scan_finished up_count total)],
               commands = probed s\<rparr>)"

subsection \<open>An environment for examples\<close>

text \<open>
  \<^verbatim>\<open>str\<close> of an IPv4 address is its four bytes in decimal, joined by dots.
\<close>

definition str_ipv4 :: "nat \<Rightarrow> string" where
  "str_ipv4 a =
     str_nat (a div 2 ^ 24 mod 256) @ ''.'' @ str_nat (a div 2 ^ 16 mod 256) @ ''.''
       @ str_nat (a div 2 ^ 8 mod 256) @ ''.'' @ str_nat (a mod 256)"

text \<open>
  The reading of three texts: \<^verbatim>\<open>192.168.1.0/30\<close>, \<^verbatim>\<open>192.168.1.9/30\<close> (host bits
  set) and \<^verbatim>\<open>10.0.0.7/32\<close>; any other text is no network.
\<close>

definition parse_example :: "string \<Rightarrow> (version \<times> nat \<times> nat) option" where
  "parse_example s =
     (if s = ''192.168.1.0/30'' then Some (IPv4, 3232235776, 30)
      else if s = ''192.168.1.9/30'' then Some (IPv4, 3232235785, 30)
      else if s = ''10.0.0.7/32'' then Some (IPv4, 167772167, 32)
      else None)"

text \<open>
  Three ways for \<^verbatim>\<open>subprocess.run\<close> to behave: every host replies; there is no
  \<^verbatim>\<open>ping\<close> executable; the operating system refuses to start the command for
  \<^verbatim>\<open>192.168.1.1\<close> and every other host replies.
\<close>

definition run_replies :: "string list \<Rightarrow> exn + int" where
  "run_replies cmd = Inr 0"

definition run_missing :: "string list \<Rightarrow> exn + int" where
  "run_missing cmd = Inl FileNotFoundError"

definition run_denied :: "string list \<Rightarrow> exn + int" where
  "run_denied cmd =
     (if last cmd = ''192.168.1.1'' then Inl (OtherException ''PermissionError'') else Inr 0)"

definition env_example :: "(string list \<Rightarrow> exn + int) \<Rightarrow> env" where
  "env_example run =
     \<lparr>platform_system = ''Linux'', subprocess_run = run,
      ip_parse = parse_example, ip_str = (\<lambda>v. str_ipv4)\<rparr>"

section \<open>Properties\<close>

subsection \<open>The loop over the completed futures\<close>

lemma record_result_fst:
  "fst (record_result quiet fut (results, lg)) = results @ [entry_of fut]"
  by (cases fut) (simp add: record_result_def entry_of_def split: sum.splits)

lemma record_result_snd:
  "set lg \<subseteq> set (snd (record_result quiet fut (results, lg)))"
  by (cases fut) (auto simp: record_result_def split: sum.splits)

lemma record_result_error:
  "(ERROR, Error_pinging ip exc) \<in> set (snd (record_result quiet (ip, Inl exc) (results, lg)))"
  by (simp add: record_result_def)

lemma collect_fst:
  "fst (collect quiet futs st) = fst st @ map entry_of futs"
proof (induction futs arbitrary: st)
  case Nil
  show ?case by simp
next
  case (Cons fut futs)
  obtain results lg where st: "st = (results, lg)"
    by (cases st)
  show ?case
    by (simp add: Cons.IH st record_result_fst)
qed

lemma collect_snd_mono:
  "set (snd st) \<subseteq> set (snd (collect quiet futs st))"
proof (induction futs arbitrary: st)
  case Nil
  show ?case by simp
next
  case (Cons fut futs)
  obtain results lg where st: "st = (results, lg)"
    by (cases st)
  have "set (snd st) \<subseteq> set (snd (record_result quiet fut st))"
    by (simp add: st record_result_snd)
  also have "\<dots> \<subseteq> set (snd (collect quiet futs (record_result quiet fut st)))"
    by (rule Cons.IH)
  finally show ?case by simp
qed

lemma collect_error:
  "(ip, Inl exc) \<in> set futs \<Longrightarrow> (ERROR, Error_pinging ip exc) \<in> set (snd (collect quiet futs st))"
proof (induction futs arbitrary: st)
  case Nil
  then show ?case by simp
next
  case (Cons fut futs)
  obtain results lg where st: "st = (results, lg)"
    by (cases st)
  show ?case
  proof (cases "fut = (ip, Inl exc)")
    case True
    have "(ERROR, Error_pinging ip exc) \<in> set (snd (record_result quiet fut st))"
      by (simp add: True st record_result_error)
    then show ?thesis
      using collect_snd_mono [of "record_result quiet fut st" quiet futs] by auto
  next
    case False
    with Cons.prems have "(ip, Inl exc) \<in> set futs" by simp
    then show ?thesis by (simp add: Cons.IH)
  qed
qed

subsection \<open>The order in which the futures are yielded\<close>

lemma yield_order_less: "yield_order n order \<Longrightarrow> i \<in> set order \<Longrightarrow> i < n"
  by (simp add: yield_order_def)

lemma yield_order_length: "yield_order n order \<Longrightarrow> length order = n"
  using distinct_card [of order] by (simp add: yield_order_def)

lemma yield_order_mset:
  assumes "yield_order n order"
  shows "mset order = mset [0..<n]"
proof -
  have d: "distinct order" and s: "set order = set [0..<n]"
    using assms by (simp_all add: yield_order_def lessThan_atLeast0)
  have "distinct [0..<n]" by simp
  with d s show ?thesis
    by (simp only: set_eq_iff_mset_eq_distinct)
qed

lemma yield_order_upt: "yield_order n [0..<n]"
  by (simp add: yield_order_def lessThan_atLeast0)

lemma yield_order_one: "yield_order 1 order \<Longrightarrow> order = [0]"
proof -
  assume a: "yield_order 1 order"
  then have "length order = 1" by (rule yield_order_length)
  then obtain i where o: "order = [i]"
    by (cases order) simp_all
  have "i < 1"
    using yield_order_less [OF a, of i] by (simp add: o)
  then show ?thesis by (simp add: o)
qed

lemma as_completed_mset:
  assumes "yield_order (length futs) order"
  shows "mset (as_completed futs order) = mset futs"
proof -
  have "mset (map (\<lambda>i. futs ! i) order) = image_mset (\<lambda>i. futs ! i) (mset order)"
    by simp
  also have "\<dots> = image_mset (\<lambda>i. futs ! i) (mset [0..<length futs])"
    using assms by (simp only: yield_order_mset)
  also have "\<dots> = mset (map (\<lambda>i. futs ! i) [0..<length futs])"
    by simp
  also have "\<dots> = mset futs"
    by (simp only: map_nth)
  finally show ?thesis by (simp add: as_completed_def)
qed

lemma as_completed_upt: "as_completed futs [0..<length futs] = futs"
  by (simp add: as_completed_def map_nth)

lemma length_futures: "length (futures e t hs) = length hs"
  by (simp add: futures_def)

lemma map_fst_futures: "map fst (map entry_of (futures e t hs)) = hs"
  by (simp add: futures_def entry_of_def comp_def)

lemma fst_entry_of_futures: "i < length hs \<Longrightarrow> fst (entry_of (futures e t hs ! i)) = hs ! i"
  by (simp add: futures_def entry_of_def)

lemma as_completed_fst:
  assumes "yield_order (length hs) order"
  shows "map fst (map entry_of (as_completed (futures e t hs) order)) = map (\<lambda>i. hs ! i) order"
proof -
  have "fst (entry_of (futures e t hs ! i)) = hs ! i" if "i \<in> set order" for i
    using yield_order_less [OF assms that] by (rule fst_entry_of_futures)
  then show ?thesis
    by (simp add: as_completed_def)
qed

subsection \<open>What \<^verbatim>\<open>sweep_network\<close> and \<^verbatim>\<open>main\<close> do\<close>

lemma sweep_network_raises:
  "ip_parse e cidr = None \<Longrightarrow>
     sweep_network e order cidr threads t quiet = \<lparr>outcome = Inl ValueError, logged = [], probed = []\<rparr>"
  by (simp add: sweep_network_def ip_network_def)

lemma sweep_network_outcome:
  assumes "ip_network (ip_parse e) cidr = Inr net" and "1 \<le> threads"
  shows "outcome (sweep_network e order cidr threads t quiet)
           = Inr (map entry_of (as_completed (futures e t (host_list e net)) order))"
proof -
  have "fst (collect quiet futs ([], lg)) = map entry_of futs" for futs lg
    by (simp add: collect_fst)
  then show ?thesis
    using assms by (simp add: sweep_network_def Let_def split_beta)
qed

lemma sweep_network_logged:
  assumes "ip_network (ip_parse e) cidr = Inr net" and "1 \<le> threads"
  shows "logged (sweep_network e order cidr threads t quiet)
           = snd (collect quiet (as_completed (futures e t (host_list e net)) order)
                    ([], [(INFO, Starting_sweep cidr (length (host_list e net)) threads)]))"
  using assms by (simp add: sweep_network_def Let_def split_beta)

lemma sweep_network_probed:
  assumes "ip_network (ip_parse e) cidr = Inr net" and "1 \<le> threads"
  shows "probed (sweep_network e order cidr threads t quiet)
           = map (\<lambda>ip. get_ping_command (platform_system e) ip t) (host_list e net)"
  using assms by (simp add: sweep_network_def Let_def split_beta)

lemma main_returns:
  "outcome (sweep_network e order n (max 1 th) (max 1 t) q) = Inr results \<Longrightarrow>
     ending (main e order n th t q) = Returned"
  by (simp add: main_def Let_def)

lemma main_raises:
  "ip_parse e cidr = None \<Longrightarrow>
     main e order cidr th t q = \<lparr>ending = Uncaught ValueError, records = [], commands = []\<rparr>"
  by (simp add: main_def sweep_network_raises)

subsection \<open>Networks\<close>

lemma ALL_ONES_mask: "ALL_ONES v = mask (max_prefixlen v)"
  by (simp add: ALL_ONES_def mask_eq_exp_minus_1)

lemma hostmask_mask: "hostmask net = mask (max_prefixlen (version net) - prefixlen net)"
proof -
  have "(a XOR b) XOR a = b" for a b :: nat
    by (rule bit_eqI) (auto simp: bit_simps)
  then show ?thesis
    by (simp add: hostmask_def netmask_def ip_int_from_prefix_def ALL_ONES_mask drop_bit_mask_eq)
qed

lemma and_netmask:
  fixes a :: nat
  assumes "a < 2 ^ n"
  shows "a AND (mask n XOR mask (n - p)) = 2 ^ (n - p) * (a div 2 ^ (n - p))"
proof -
  have a: "take_bit n a = a"
    using assms by (simp add: take_bit_nat_eq_self)
  have "take_bit n a AND (mask n XOR mask (n - p))
          = push_bit (n - p) (drop_bit (n - p) (take_bit n a))"
    by (rule bit_eqI) (auto simp: bit_simps)
  then show ?thesis
    by (simp add: a push_bit_eq_mult drop_bit_eq_div)
qed

lemma or_hostmask:
  fixes q :: nat
  shows "2 ^ k * q OR mask k = 2 ^ k * q + 2 ^ k - 1"
proof -
  have p: "2 ^ k * q = push_bit k q"
    by (simp add: push_bit_eq_mult)
  have "push_bit k q AND mask k = 0"
    by (rule bit_eqI) (auto simp: bit_simps)
  then have "push_bit k q + mask k = push_bit k q OR mask k"
    by (rule disjunctive_add_eq_or)
  then show ?thesis
    by (simp add: p mask_eq_exp_minus_1)
qed

lemma ip_network_Inr:
  assumes "ip_network parse cidr = Inr net"
  shows "network_address net = addr net AND ip_int_from_prefix (version net) (prefixlen net)"
  using assms by (auto simp: ip_network_def split: option.splits)

lemma network_address_eq:
  assumes "ip_network parse cidr = Inr net"
      and "addr net < 2 ^ max_prefixlen (version net)"
  shows "network_address net
           = 2 ^ (max_prefixlen (version net) - prefixlen net)
               * (addr net div 2 ^ (max_prefixlen (version net) - prefixlen net))"
  using and_netmask [OF assms(2), of "prefixlen net"]
  by (simp add: ip_network_Inr [OF assms(1)] ip_int_from_prefix_def ALL_ONES_mask drop_bit_mask_eq)

lemma broadcast_address_eq:
  assumes "ip_network parse cidr = Inr net"
      and "addr net < 2 ^ max_prefixlen (version net)"
  shows "broadcast_address net
           = network_address net + 2 ^ (max_prefixlen (version net) - prefixlen net) - 1"
  unfolding broadcast_address_def hostmask_mask
  by (subst (1 2) network_address_eq [OF assms]) (rule or_hostmask)

lemma hosts_cases:
  obtains "hosts net = [addr net]" | m n where "hosts net = [m..<n]"
proof (cases "prefixlen net = max_prefixlen (version net) - 1")
  case True
  then have "hosts net = [network_address net ..< broadcast_address net + 1]"
    by (simp only: hosts_def addresses_def if_P)
  then show ?thesis by (rule that(2))
next
  case False
  note ne = this
  show ?thesis
  proof (cases "prefixlen net = max_prefixlen (version net)")
    case True
    with ne have "hosts net = [addr net]"
      by (simp only: hosts_def if_P if_not_P not_False_eq_True)
    then show ?thesis by (rule that(1))
  next
    case False
    show ?thesis
    proof (cases "version net")
      case IPv4
      with ne False have "hosts net = [network_address net + 1 ..< broadcast_address net]"
        by (simp only: hosts_def if_not_P not_False_eq_True version.case)
      then show ?thesis by (rule that(2))
    next
      case IPv6
      with ne False have "hosts net = [network_address net + 1 ..< broadcast_address net + 1]"
        by (simp only: hosts_def if_not_P not_False_eq_True version.case)
      then show ?thesis by (rule that(2))
    qed
  qed
qed

lemma distinct_hosts: "distinct (hosts net)"
  by (rule hosts_cases [of net]) simp_all

lemma sorted_hosts: "sorted_wrt (<) (hosts net)"
  by (rule hosts_cases [of net]) simp_all

lemma length_host_list: "length (host_list e net) = length (hosts net)"
  by (simp add: host_list_def)

subsection \<open>The examples, evaluated\<close>

lemma prefix_30: "ip_int_from_prefix IPv4 30 = 4294967292"
  by (simp add: ip_int_from_prefix_def ALL_ONES_def)

lemma prefix_32: "ip_int_from_prefix IPv4 32 = 4294967295"
  by (simp add: ip_int_from_prefix_def ALL_ONES_def)

lemma network_1_0:
  "ip_network parse_example ''192.168.1.0/30''
     = Inr \<lparr>version = IPv4, network_address = 3232235776, prefixlen = 30, addr = 3232235776\<rparr>"
  by (simp add: ip_network_def parse_example_def prefix_30)

lemma network_1_9:
  "ip_network parse_example ''192.168.1.9/30''
     = Inr \<lparr>version = IPv4, network_address = 3232235784, prefixlen = 30, addr = 3232235785\<rparr>"
  by (simp add: ip_network_def parse_example_def prefix_30)

lemma network_0_7:
  "ip_network parse_example ''10.0.0.7/32''
     = Inr \<lparr>version = IPv4, network_address = 167772167, prefixlen = 32, addr = 167772167\<rparr>"
  by (simp add: ip_network_def parse_example_def prefix_32)

lemma hosts_1_0:
  "hosts \<lparr>version = IPv4, network_address = 3232235776, prefixlen = 30, addr = 3232235776\<rparr>
     = [3232235777, 3232235778]"
  by (simp add: hosts_def broadcast_address_def hostmask_mask mask_eq_exp_minus_1)

lemma hosts_1_9:
  "hosts \<lparr>version = IPv4, network_address = 3232235784, prefixlen = 30, addr = 3232235785\<rparr>
     = [3232235785, 3232235786]"
  by (simp add: hosts_def broadcast_address_def hostmask_mask mask_eq_exp_minus_1)

lemma hosts_0_7:
  "hosts \<lparr>version = IPv4, network_address = 167772167, prefixlen = 32, addr = 167772167\<rparr>
     = [167772167]"
  by (simp add: hosts_def)

lemma str_1_1: "str_ipv4 3232235777 = ''192.168.1.1''"
  by (simp add: str_ipv4_def str_nat.simps digit_char_def)

lemma str_1_2: "str_ipv4 3232235778 = ''192.168.1.2''"
  by (simp add: str_ipv4_def str_nat.simps digit_char_def)

lemma str_0_7: "str_ipv4 167772167 = ''10.0.0.7''"
  by (simp add: str_ipv4_def str_nat.simps digit_char_def)

lemma host_list_1_0:
  "host_list (env_example run)
     \<lparr>version = IPv4, network_address = 3232235776, prefixlen = 30, addr = 3232235776\<rparr>
     = [''192.168.1.1'', ''192.168.1.2'']"
  by (simp add: host_list_def hosts_1_0 env_example_def str_1_1 str_1_2)

lemma host_list_0_7:
  "host_list (env_example run)
     \<lparr>version = IPv4, network_address = 167772167, prefixlen = 32, addr = 167772167\<rparr>
     = [''10.0.0.7'']"
  by (simp add: host_list_def hosts_0_7 env_example_def str_0_7)

lemma env_example_simps:
  "platform_system (env_example run) = ''Linux''"
  "subprocess_run (env_example run) = run"
  "ip_parse (env_example run) = parse_example"
  "ip_str (env_example run) v = str_ipv4"
  by (simp_all add: env_example_def)

lemma ping_once_replies: "ping_once ''Linux'' run_replies ip t = Inr True"
  by (simp add: ping_once_def run_replies_def)

lemma ping_once_missing: "ping_once ''Linux'' run_missing ip t = Inl (RuntimeError ping_not_found)"
  by (simp add: ping_once_def run_missing_def)

lemma ping_once_denied_1_1:
  "ping_once ''Linux'' run_denied ''192.168.1.1'' t = Inl (OtherException ''PermissionError'')"
  by (simp add: ping_once_def run_denied_def get_ping_command_def)

lemma ping_once_denied_1_2: "ping_once ''Linux'' run_denied ''192.168.1.2'' t = Inr True"
  by (simp add: ping_once_def run_denied_def get_ping_command_def)

lemma order_1_0: "yield_order (length [x, y]) [1, 0]"
  by (auto simp: yield_order_def)

lemma order_0_1: "yield_order (length [x, y]) [0, 1]"
  by (auto simp: yield_order_def)

lemma order_0: "yield_order (length [x]) [0]"
  by (auto simp: yield_order_def)

lemma futures_1_0:
  "futures (env_example run) t [''192.168.1.1'', ''192.168.1.2'']
     = [(''192.168.1.1'', ping_once ''Linux'' run ''192.168.1.1'' t),
        (''192.168.1.2'', ping_once ''Linux'' run ''192.168.1.2'' t)]"
  by (simp add: futures_def env_example_simps)

lemma sweep_1_0:
  assumes "1 \<le> threads"
  shows "outcome (sweep_network (env_example run) order ''192.168.1.0/30'' threads t quiet)
           = Inr (map entry_of (as_completed
                   [(''192.168.1.1'', ping_once ''Linux'' run ''192.168.1.1'' t),
                    (''192.168.1.2'', ping_once ''Linux'' run ''192.168.1.2'' t)] order))"
proof -
  have n: "ip_network (ip_parse (env_example run)) ''192.168.1.0/30''
     = Inr \<lparr>version = IPv4, network_address = 3232235776, prefixlen = 30, addr = 3232235776\<rparr>"
    by (simp add: env_example_simps network_1_0)
  show ?thesis
    by (simp only: sweep_network_outcome [OF n assms] host_list_1_0 futures_1_0)
qed

lemma str_int_1: "str_int 1 = ''1''"
  by (simp add: str_int_def str_nat.simps digit_char_def)

subsection \<open>The timeout handed to \<^verbatim>\<open>ping\<close>\<close>

lemma div_1000_bounds:
  fixes t :: int
  shows "1000 * ((t + 999) div 1000) - 1000 < t \<and> t \<le> 1000 * ((t + 999) div 1000)"
proof -
  have e: "t + 999 = 1000 * ((t + 999) div 1000) + (t + 999) mod 1000"
    by simp
  have l: "0 \<le> (t + 999) mod 1000" and u: "(t + 999) mod 1000 < 1000"
    by simp_all
  from e l u show ?thesis by linarith
qed

lemma secs_ceiling: "secs t = max 1 \<lceil>real_of_int t / 1000\<rceil>"
proof -
  have "\<lceil>real_of_int t / 1000\<rceil> = (t + 999) div 1000"
  proof (rule ceiling_unique)
    have "1000 * ((t + 999) div 1000) - 1000 < t"
      using div_1000_bounds [of t] by simp
    then have "real_of_int (1000 * ((t + 999) div 1000) - 1000) < real_of_int t"
      by (simp only: of_int_less_iff)
    then show "real_of_int ((t + 999) div 1000) - 1 < real_of_int t / 1000"
      by simp
    have "t \<le> 1000 * ((t + 999) div 1000)"
      using div_1000_bounds [of t] by simp
    then have "real_of_int t \<le> real_of_int (1000 * ((t + 999) div 1000))"
      by (simp only: of_int_le_iff)
    then show "real_of_int t / 1000 \<le> real_of_int ((t + 999) div 1000)"
      by simp
  qed
  then show ?thesis
    by (simp add: secs_def)
qed

lemma secs_below_1000: "t < 1000 \<Longrightarrow> secs t = 1"
proof -
  assume "t < 1000"
  then have "(t + 999) div 1000 \<le> 1"
    using div_1000_bounds [of t] by linarith
  then show ?thesis by (simp add: secs_def)
qed

lemma secs_excess: "1 \<le> t \<Longrightarrow> t \<le> 1000 * secs t \<and> 1000 * secs t - t \<le> 999"
proof -
  assume "1 \<le> t"
  then have "1 \<le> (t + 999) div 1000"
    using div_1000_bounds [of t] by linarith
  then have "secs t = (t + 999) div 1000"
    by (simp add: secs_def)
  then show ?thesis
    using div_1000_bounds [of t] by linarith
qed

section \<open>The claims\<close>

text \<open>
  Claim C1 says that a probe that cannot run at all (no \<^verbatim>\<open>ping\<close> executable) aborts
  the sweep, with no result and an exit status other than 0. \<^verbatim>\<open>ping_once\<close> raises
  \<^verbatim>\<open>RuntimeError\<close> for it and \<^verbatim>\<open>main\<close> exits with status 1 on a
  \<^verbatim>\<open>RuntimeError\<close>, but the \<^verbatim>\<open>except Exception\<close> of the loop in
  \<^verbatim>\<open>sweep_network\<close> catches it first. On \<^verbatim>\<open>192.168.1.0/30\<close> without a
  \<^verbatim>\<open>ping\<close> executable every probe raises the \<^verbatim>\<open>RuntimeError\<close>, the sweep returns
  both hosts as down, and \<^verbatim>\<open>main\<close> returns with status 0.
\<close>

theorem transport_error_swallowed:
  "ping_once ''Linux'' run_missing ''192.168.1.1'' 300 = Inl (RuntimeError ping_not_found)
   \<and> outcome (sweep_network (env_example run_missing) [0, 1] ''192.168.1.0/30'' 32 300 False)
       = Inr [(''192.168.1.1'', False), (''192.168.1.2'', False)]
   \<and> ending (main (env_example run_missing) [0, 1] ''192.168.1.0/30'' 32 300 False) = Returned
   \<and> exit_status (ending (main (env_example run_missing) [0, 1] ''192.168.1.0/30'' 32 300 False))
       = 0"
proof -
  have a: "outcome (sweep_network (env_example run_missing) [0, 1] ''192.168.1.0/30'' 32 300 False)
       = Inr [(''192.168.1.1'', False), (''192.168.1.2'', False)]"
    by (simp add: sweep_1_0 as_completed_def entry_of_def ping_once_missing)
  then have "outcome (sweep_network (env_example run_missing) [0, 1] ''192.168.1.0/30''
                (max 1 32) (max 1 300) False)
       = Inr [(''192.168.1.1'', False), (''192.168.1.2'', False)]"
    by simp
  then have b: "ending (main (env_example run_missing) [0, 1] ''192.168.1.0/30'' 32 300 False)
       = Returned"
    by (rule main_returns)
  from a b show ?thesis
    by (simp add: ping_once_missing)
qed

text \<open>
  Claim C2, as amended. For every network, every positive number of threads and every
  order in which \<^verbatim>\<open>as_completed\<close> yields the futures, \<^verbatim>\<open>sweep_network\<close> returns
  the entries in that order: the \<open>i\<close>-th entry is that of the host whose future was
  yielded \<open>i\<close>-th. The result is in the order of the range when the futures are yielded
  in the order of submission, which the program does not ensure.
\<close>

theorem sweep_network_yield_order:
  assumes "ip_network (ip_parse e) cidr = Inr net"
      and "1 \<le> threads"
      and "yield_order (length (hosts net)) order"
  shows "outcome (sweep_network e order cidr threads timeout_ms quiet)
           = Inr (map (\<lambda>i. entry_of (futures e timeout_ms (host_list e net) ! i)) order)
     \<and> map fst (map (\<lambda>i. entry_of (futures e timeout_ms (host_list e net) ! i)) order)
           = map (\<lambda>i. host_list e net ! i) order
     \<and> (order = [0..<length (hosts net)] \<longrightarrow>
          outcome (sweep_network e order cidr threads timeout_ms quiet)
            = Inr (map entry_of (futures e timeout_ms (host_list e net))))"
proof -
  let ?futs = "futures e timeout_ms (host_list e net)"
  have o: "yield_order (length (host_list e net)) order"
    using assms(3) by (simp only: length_host_list)
  have r: "outcome (sweep_network e order cidr threads timeout_ms quiet)
             = Inr (map entry_of (as_completed ?futs order))"
    by (rule sweep_network_outcome [OF assms(1,2)])
  have a: "map entry_of (as_completed ?futs order) = map (\<lambda>i. entry_of (?futs ! i)) order"
    by (simp add: as_completed_def)
  have f: "map fst (map entry_of (as_completed ?futs order)) = map (\<lambda>i. host_list e net ! i) order"
    by (rule as_completed_fst [OF o])
  have u: "outcome (sweep_network e order cidr threads timeout_ms quiet) = Inr (map entry_of ?futs)"
    if "order = [0..<length (hosts net)]"
  proof -
    have "order = [0..<length ?futs]"
      using that by (simp only: length_futures length_host_list)
    then have "as_completed ?futs order = ?futs"
      by (simp only: as_completed_upt)
    with r show ?thesis by simp
  qed
  from r a have 1: "outcome (sweep_network e order cidr threads timeout_ms quiet)
           = Inr (map (\<lambda>i. entry_of (?futs ! i)) order)"
    by simp
  from f a have 2: "map fst (map (\<lambda>i. entry_of (?futs ! i)) order)
           = map (\<lambda>i. host_list e net ! i) order"
    by simp
  from 1 2 u show ?thesis
    by (intro conjI impI)
qed

theorem sweep_network_yield_order_witness:
  "ip_network (ip_parse (env_example run_denied)) ''192.168.1.0/30''
     = Inr \<lparr>version = IPv4, network_address = 3232235776, prefixlen = 30, addr = 3232235776\<rparr>
   \<and> (1::int) \<le> 32
   \<and> yield_order
        (length (hosts \<lparr>version = IPv4, network_address = 3232235776, prefixlen = 30,
                        addr = 3232235776\<rparr>)) [0, 1]
   \<and> [0, 1] = [0..<length (hosts \<lparr>version = IPv4, network_address = 3232235776,
                                    prefixlen = 30, addr = 3232235776\<rparr>)]
   \<and> outcome (sweep_network (env_example run_denied) [0, 1] ''192.168.1.0/30'' 32 300 False)
       = Inr [(''192.168.1.1'', False), (''192.168.1.2'', True)]"
proof -
  let ?e = "env_example run_denied"
  let ?net = "\<lparr>version = IPv4, network_address = 3232235776, prefixlen = 30, addr = 3232235776\<rparr>"
  have n: "ip_network (ip_parse ?e) ''192.168.1.0/30'' = Inr ?net"
    by (simp add: env_example_simps network_1_0)
  have t: "(1::int) \<le> 32"
    by simp
  have c: "yield_order (length (hosts ?net)) [0, 1]"
    by (simp only: hosts_1_0 order_0_1)
  have u: "[0, 1] = [0..<length (hosts ?net)]"
    by (simp add: hosts_1_0 upt_rec)
  have "outcome (sweep_network ?e [0, 1] ''192.168.1.0/30'' 32 300 False)
          = Inr (map entry_of (futures ?e 300 (host_list ?e ?net)))"
    using sweep_network_yield_order [OF n t c, of 300 False] u by (elim conjE impE)
  then have "outcome (sweep_network ?e [0, 1] ''192.168.1.0/30'' 32 300 False)
          = Inr [(''192.168.1.1'', False), (''192.168.1.2'', True)]"
    by (simp add: host_list_1_0 futures_1_0 entry_of_def ping_once_denied_1_1
          ping_once_denied_1_2)
  with n t c u show ?thesis
    by (intro conjI)
qed

text \<open>
  Claim C2 as stated, that the result is in the order of the range whatever the order of
  completion, fails: on \<^verbatim>\<open>192.168.1.0/30\<close>, when the future of the second host is
  yielded first (its probe completes while the first is still running), the second host
  is the first entry, and the result differs from that of the other order.
\<close>

theorem sweep_network_not_range_order:
  "yield_order 2 [1, 0]
   \<and> host_list (env_example run_replies)
        \<lparr>version = IPv4, network_address = 3232235776, prefixlen = 30, addr = 3232235776\<rparr>
       = [''192.168.1.1'', ''192.168.1.2'']
   \<and> outcome (sweep_network (env_example run_replies) [1, 0] ''192.168.1.0/30'' 32 300 False)
       = Inr [(''192.168.1.2'', True), (''192.168.1.1'', True)]
   \<and> outcome (sweep_network (env_example run_replies) [0, 1] ''192.168.1.0/30'' 32 300 False)
       = Inr [(''192.168.1.1'', True), (''192.168.1.2'', True)]
   \<and> outcome (sweep_network (env_example run_replies) [1, 0] ''192.168.1.0/30'' 32 300 False)
       \<noteq> outcome (sweep_network (env_example run_replies) [0, 1] ''192.168.1.0/30'' 32 300 False)"
proof -
  have c: "yield_order 2 [1, 0]"
    by (auto simp: yield_order_def)
  have a: "outcome (sweep_network (env_example run_replies) [1, 0] ''192.168.1.0/30'' 32 300 False)
       = Inr [(''192.168.1.2'', True), (''192.168.1.1'', True)]"
    by (simp add: sweep_1_0 as_completed_def entry_of_def ping_once_replies)
  have b: "outcome (sweep_network (env_example run_replies) [0, 1] ''192.168.1.0/30'' 32 300 False)
       = Inr [(''192.168.1.1'', True), (''192.168.1.2'', True)]"
    by (simp add: sweep_1_0 as_completed_def entry_of_def ping_once_replies)
  have d: "outcome (sweep_network (env_example run_replies) [1, 0] ''192.168.1.0/30'' 32 300 False)
       \<noteq> outcome (sweep_network (env_example run_replies) [0, 1] ''192.168.1.0/30'' 32 300 False)"
    unfolding a b by simp
  from c a b d show ?thesis
    by (simp only: host_list_1_0 simp_thms)
qed

text \<open>
  Claim C3. For every text that denotes a network, every positive number of threads and
  every order in which the futures are yielded, \<^verbatim>\<open>sweep_network\<close> returns a result
  with as many entries as the network has hosts; the hosts of the entries are the hosts
  of the network, each as often as the expansion produced it, and no host occurs twice
  when distinct addresses print differently.
\<close>

theorem sweep_network_entry_per_host:
  assumes "ip_network (ip_parse e) cidr = Inr net"
      and "1 \<le> threads"
      and "yield_order (length (hosts net)) order"
  shows "\<exists>results.
           outcome (sweep_network e order cidr threads timeout_ms quiet) = Inr results
         \<and> length results = length (hosts net)
         \<and> mset (map fst results) = mset (host_list e net)
         \<and> (inj_on (ip_str e (version net)) (set (hosts net)) \<longrightarrow> distinct (map fst results))"
proof -
  let ?futs = "futures e timeout_ms (host_list e net)"
  let ?results = "map entry_of (as_completed ?futs order)"
  have o: "yield_order (length ?futs) order"
    using assms(3) by (simp add: length_futures length_host_list)
  have r: "outcome (sweep_network e order cidr threads timeout_ms quiet) = Inr ?results"
    by (rule sweep_network_outcome [OF assms(1,2)])
  have l: "length ?results = length (hosts net)"
    using yield_order_length [OF assms(3)] by (simp add: as_completed_def)
  have "mset ?results = mset (map entry_of ?futs)"
    using as_completed_mset [OF o] by (simp only: mset_map)
  then have "mset (map fst ?results) = mset (map fst (map entry_of ?futs))"
    by (simp only: mset_map)
  then have m: "mset (map fst ?results) = mset (host_list e net)"
    by (simp only: map_fst_futures)
  have d: "distinct (map fst ?results)"
    if "inj_on (ip_str e (version net)) (set (hosts net))"
  proof -
    have "distinct (host_list e net)"
      using that by (simp add: host_list_def distinct_map distinct_hosts)
    then show ?thesis
      by (simp only: mset_eq_imp_distinct_iff [OF m])
  qed
  from r l m d show ?thesis by blast
qed

theorem sweep_network_entry_per_host_witness:
  "ip_network (ip_parse (env_example run_replies)) ''192.168.1.0/30''
     = Inr \<lparr>version = IPv4, network_address = 3232235776, prefixlen = 30, addr = 3232235776\<rparr>
   \<and> (1::int) \<le> 32
   \<and> yield_order
        (length (hosts \<lparr>version = IPv4, network_address = 3232235776, prefixlen = 30,
                        addr = 3232235776\<rparr>)) [1, 0]
   \<and> inj_on str_ipv4 {3232235777, 3232235778}
   \<and> (\<exists>results.
         outcome (sweep_network (env_example run_replies) [1, 0] ''192.168.1.0/30'' 32 300 False)
           = Inr results
       \<and> length results = 2
       \<and> mset (map fst results) = mset [''192.168.1.1'', ''192.168.1.2'']
       \<and> distinct (map fst results))"
proof -
  let ?e = "env_example run_replies"
  let ?net = "\<lparr>version = IPv4, network_address = 3232235776, prefixlen = 30, addr = 3232235776\<rparr>"
  have n: "ip_network (ip_parse ?e) ''192.168.1.0/30'' = Inr ?net"
    by (simp add: env_example_simps network_1_0)
  have t: "(1::int) \<le> 32"
    by simp
  have c: "yield_order (length (hosts ?net)) [1, 0]"
    by (simp only: hosts_1_0 order_1_0)
  have i: "inj_on str_ipv4 {3232235777, 3232235778}"
    by (simp add: str_1_1 str_1_2)
  have i': "inj_on (ip_str ?e (version ?net)) (set (hosts ?net))"
    using i by (simp add: env_example_simps hosts_1_0)
  from sweep_network_entry_per_host [OF n t c, of 300 False] i'
  obtain results where
    r: "outcome (sweep_network ?e [1, 0] ''192.168.1.0/30'' 32 300 False) = Inr results"
    and l: "length results = length (hosts ?net)"
    and m: "mset (map fst results) = mset (host_list ?e ?net)"
    and d: "distinct (map fst results)"
    by blast
  from l have l': "length results = 2"
    by (simp add: hosts_1_0)
  from m have m': "mset (map fst results) = mset [''192.168.1.1'', ''192.168.1.2'']"
    by (simp only: host_list_1_0)
  from r l' m' d have "\<exists>results.
         outcome (sweep_network ?e [1, 0] ''192.168.1.0/30'' 32 300 False) = Inr results
       \<and> length results = 2
       \<and> mset (map fst results) = mset [''192.168.1.1'', ''192.168.1.2'']
       \<and> distinct (map fst results)"
    by blast
  with n t c i show ?thesis
    by blast
qed

text \<open>
  Claim C4. For every CIDR text that denotes a network of more than one address, the
  hosts of the network are in strictly ascending numeric order. They are the addresses of
  the network without the network address and the broadcast address for IPv4 with a
  prefix of at most 30, without the network address for IPv6 with a prefix of at most
  126 (IPv6 has no broadcast address), and all addresses when the prefix leaves one bit,
  where neither is defined. The addresses of the network are the \<open>2 ^ k\<close> consecutive
  addresses from the network address on, \<open>k\<close> being the number of host bits, and there
  is at least one host.
\<close>

theorem hosts_ascending_usable:
  assumes "ip_network parse cidr = Inr net"
      and "addr net < 2 ^ max_prefixlen (version net)"
      and "prefixlen net < max_prefixlen (version net)"
  shows "sorted_wrt (<) (hosts net)
     \<and> set (hosts net)
         = set (addresses net)
             - (if prefixlen net + 1 = max_prefixlen (version net) then {}
                else if version net = IPv4 then {network_address net, broadcast_address net}
                else {network_address net})
     \<and> addresses net
         = [network_address net
              ..< network_address net + 2 ^ (max_prefixlen (version net) - prefixlen net)]
     \<and> hosts net \<noteq> []"
proof -
  define k where "k = max_prefixlen (version net) - prefixlen net"
  have k: "1 \<le> k"
    using assms(3) by (simp add: k_def)
  then have pow: "(2::nat) \<le> 2 ^ k"
    using power_increasing [of 1 k "2::nat"] by simp
  have bc: "broadcast_address net = network_address net + 2 ^ k - 1"
    unfolding k_def by (rule broadcast_address_eq [OF assms(1,2)])
  have ad: "addresses net = [network_address net ..< network_address net + 2 ^ k]"
    using pow by (simp add: addresses_def bc)
  have s: "sorted_wrt (<) (hosts net)"
    by (rule sorted_hosts)
  show ?thesis
  proof (cases "prefixlen net + 1 = max_prefixlen (version net)")
    case True
    then have "prefixlen net = max_prefixlen (version net) - 1"
      by simp
    then have h: "hosts net = addresses net"
      by (simp only: hosts_def if_P)
    have "addresses net \<noteq> []"
      using pow by (simp add: ad)
    with s h ad True show ?thesis
      by (simp add: k_def)
  next
    case False
    with assms(3) have ne: "prefixlen net \<noteq> max_prefixlen (version net) - 1"
      and ne': "prefixlen net \<noteq> max_prefixlen (version net)"
      by simp_all
    from False k assms(3) have "2 \<le> k"
      by (simp add: k_def)
    then have pow4: "(4::nat) \<le> 2 ^ k"
      using power_increasing [of 2 k "2::nat"] by simp
    show ?thesis
    proof (cases "version net")
      case IPv4
      have h: "hosts net = [network_address net + 1 ..< network_address net + 2 ^ k - 1]"
        using ne ne' by (simp add: hosts_def IPv4 bc)
      have "set (hosts net)
              = set (addresses net) - {network_address net, broadcast_address net}"
        using pow4 by (auto simp: h ad bc)
      moreover have "hosts net \<noteq> []"
        using pow4 by (simp add: h)
      ultimately show ?thesis
        using s ad False IPv4 by (simp add: k_def)
    next
      case IPv6
      have h: "hosts net = [network_address net + 1 ..< network_address net + 2 ^ k]"
        using ne ne' pow by (simp add: hosts_def IPv6 bc)
      have "set (hosts net) = set (addresses net) - {network_address net}"
        by (auto simp: h ad)
      moreover have "hosts net \<noteq> []"
        using pow4 by (simp add: h)
      ultimately show ?thesis
        using s ad False IPv6 by (simp add: k_def)
    qed
  qed
qed

theorem hosts_ascending_usable_witness:
  "ip_network parse_example ''192.168.1.9/30''
     = Inr \<lparr>version = IPv4, network_address = 3232235784, prefixlen = 30, addr = 3232235785\<rparr>
   \<and> (3232235785::nat) < 2 ^ 32 \<and> (30::nat) < 32
   \<and> hosts \<lparr>version = IPv4, network_address = 3232235784, prefixlen = 30, addr = 3232235785\<rparr>
       = [3232235785, 3232235786]
   \<and> sorted_wrt (<)
       (hosts \<lparr>version = IPv4, network_address = 3232235784, prefixlen = 30, addr = 3232235785\<rparr>)
   \<and> addresses \<lparr>version = IPv4, network_address = 3232235784, prefixlen = 30, addr = 3232235785\<rparr>
       = [3232235784 ..< 3232235788]"
  using hosts_ascending_usable [OF network_1_9] by (simp add: network_1_9 hosts_1_9)

text \<open>
  Claim C5. For every text that is not a network, \<^verbatim>\<open>sweep_network\<close> raises
  \<^verbatim>\<open>ValueError\<close> at once: no result is returned, nothing has been logged and no
  command has been run. \<^verbatim>\<open>main\<close> does not catch it, so the process ends with the
  uncaught exception, a status other than 0, and no probe.
\<close>

theorem malformed_cidr_raises:
  assumes "ip_parse e cidr = None"
  shows "outcome (sweep_network e order cidr threads timeout_ms quiet) = Inl ValueError
     \<and> probed (sweep_network e order cidr threads timeout_ms quiet) = []
     \<and> logged (sweep_network e order cidr threads timeout_ms quiet) = []
     \<and> ending (main e order cidr threads timeout_ms quiet) = Uncaught ValueError
     \<and> commands (main e order cidr threads timeout_ms quiet) = []
     \<and> exit_status (ending (main e order cidr threads timeout_ms quiet)) \<noteq> 0"
  using assms by (simp add: sweep_network_raises main_raises)

theorem malformed_cidr_raises_witness:
  "ip_parse (env_example run_replies) ''not-a-network'' = None
   \<and> outcome (sweep_network (env_example run_replies) [] ''not-a-network'' 32 300 False)
       = Inl ValueError
   \<and> probed (sweep_network (env_example run_replies) [] ''not-a-network'' 32 300 False) = []
   \<and> ending (main (env_example run_replies) [] ''not-a-network'' 32 300 False)
       = Uncaught ValueError
   \<and> exit_status (ending (main (env_example run_replies) [] ''not-a-network'' 32 300 False)) = 1"
proof -
  have h: "ip_parse (env_example run_replies) ''not-a-network'' = None"
    by (simp add: env_example_simps parse_example_def)
  show ?thesis
    using h malformed_cidr_raises [OF h, of "[]" 32 300 False] by simp
qed

text \<open>
  Claim C6. When the probe of a host raises an exception other than a
  \<^verbatim>\<open>RuntimeError\<close>, \<^verbatim>\<open>sweep_network\<close> still returns a result with one entry per
  host, the host is in it as down, and a record at level \<open>ERROR\<close> with the host and the
  exception has been logged.
\<close>

theorem probe_exception_recorded_down:
  assumes "ip_network (ip_parse e) cidr = Inr net"
      and "1 \<le> threads"
      and "yield_order (length (hosts net)) order"
      and "h \<in> set (host_list e net)"
      and "ping_once (platform_system e) (subprocess_run e) h timeout_ms = Inl exc"
      and "\<not> is_RuntimeError exc"
  shows "\<exists>results.
           outcome (sweep_network e order cidr threads timeout_ms quiet) = Inr results
         \<and> (h, False) \<in> set results
         \<and> length results = length (hosts net)
         \<and> (ERROR, Error_pinging h exc)
             \<in> set (logged (sweep_network e order cidr threads timeout_ms quiet))"
proof -
  let ?futs = "futures e timeout_ms (host_list e net)"
  let ?done = "as_completed ?futs order"
  have o: "yield_order (length ?futs) order"
    using assms(3) by (simp only: length_futures length_host_list)
  have r: "outcome (sweep_network e order cidr threads timeout_ms quiet)
             = Inr (map entry_of ?done)"
    by (rule sweep_network_outcome [OF assms(1,2)])
  have "(h, Inl exc) \<in> set ?futs"
    using assms(4,5) by (auto simp: futures_def)
  moreover have "set ?done = set ?futs"
    using as_completed_mset [OF o] by (rule mset_eq_setD)
  ultimately have i: "(h, Inl exc) \<in> set ?done"
    by simp
  have "entry_of (h, Inl exc) = (h, False)"
    by (simp add: entry_of_def)
  with i have d: "(h, False) \<in> set (map entry_of ?done)"
    by force
  have l: "length (map entry_of ?done) = length (hosts net)"
    using yield_order_length [OF assms(3)] by (simp add: as_completed_def)
  have g: "(ERROR, Error_pinging h exc)
             \<in> set (logged (sweep_network e order cidr threads timeout_ms quiet))"
    unfolding sweep_network_logged [OF assms(1,2)] using i by (rule collect_error)
  from r d l g show ?thesis by blast
qed

theorem probe_exception_recorded_down_witness:
  "ip_network (ip_parse (env_example run_denied)) ''192.168.1.0/30''
     = Inr \<lparr>version = IPv4, network_address = 3232235776, prefixlen = 30, addr = 3232235776\<rparr>
   \<and> (1::int) \<le> 32
   \<and> yield_order
        (length (hosts \<lparr>version = IPv4, network_address = 3232235776, prefixlen = 30,
                        addr = 3232235776\<rparr>)) [1, 0]
   \<and> ''192.168.1.1''
       \<in> set (host_list (env_example run_denied)
                \<lparr>version = IPv4, network_address = 3232235776, prefixlen = 30,
                   addr = 3232235776\<rparr>)
   \<and> ping_once (platform_system (env_example run_denied))
        (subprocess_run (env_example run_denied)) ''192.168.1.1'' 300
       = Inl (OtherException ''PermissionError'')
   \<and> \<not> is_RuntimeError (OtherException ''PermissionError'')
   \<and> (\<exists>results.
         outcome (sweep_network (env_example run_denied) [1, 0] ''192.168.1.0/30'' 32 300 False)
           = Inr results
       \<and> (''192.168.1.1'', False) \<in> set results
       \<and> length results = 2
       \<and> (ERROR, Error_pinging ''192.168.1.1'' (OtherException ''PermissionError''))
           \<in> set (logged (sweep_network (env_example run_denied) [1, 0] ''192.168.1.0/30''
                             32 300 False)))"
proof -
  let ?e = "env_example run_denied"
  let ?net = "\<lparr>version = IPv4, network_address = 3232235776, prefixlen = 30, addr = 3232235776\<rparr>"
  let ?exc = "OtherException ''PermissionError''"
  have n: "ip_network (ip_parse ?e) ''192.168.1.0/30'' = Inr ?net"
    by (simp add: env_example_simps network_1_0)
  have t: "(1::int) \<le> 32"
    by simp
  have c: "yield_order (length (hosts ?net)) [1, 0]"
    by (simp only: hosts_1_0 order_1_0)
  have h: "''192.168.1.1'' \<in> set (host_list ?e ?net)"
    by (simp add: host_list_1_0)
  have p: "ping_once (platform_system ?e) (subprocess_run ?e) ''192.168.1.1'' 300 = Inl ?exc"
    by (simp add: env_example_simps ping_once_denied_1_1)
  have x: "\<not> is_RuntimeError ?exc"
    by simp
  have l: "length (hosts ?net) = 2"
    by (simp add: hosts_1_0)
  have "\<exists>results.
         outcome (sweep_network ?e [1, 0] ''192.168.1.0/30'' 32 300 False) = Inr results
       \<and> (''192.168.1.1'', False) \<in> set results
       \<and> length results = 2
       \<and> (ERROR, Error_pinging ''192.168.1.1'' ?exc)
           \<in> set (logged (sweep_network ?e [1, 0] ''192.168.1.0/30'' 32 300 False))"
    using probe_exception_recorded_down [OF n t c h p x, of False] by (simp only: l)
  with n t c h p x show ?thesis
    by (intro conjI)
qed

text \<open>
  Claim C9. On a system other than Windows the timeout argument of the ping command is
  the decimal text of \<open>max 1 \<lceil>timeout_ms / 1000\<rceil>\<close> seconds, for every integer
  \<open>timeout_ms\<close>. Every timeout below 1000 ms becomes one second. For a timeout of at
  least 1 ms the effective timeout is never shorter than the requested one and exceeds
  it by at most 999 ms; a request of 1 ms is exceeded by exactly 999 ms.
\<close>

theorem get_ping_command_unix_timeout:
  "system \<noteq> ''Windows'' \<Longrightarrow>
     get_ping_command system ip timeout_ms
       = [''ping'', ''-c'', ''1'', ''-W'', str_int (max 1 \<lceil>real_of_int timeout_ms / 1000\<rceil>), ip]
     \<and> (timeout_ms < 1000 \<longrightarrow>
          get_ping_command system ip timeout_ms = [''ping'', ''-c'', ''1'', ''-W'', ''1'', ip])
     \<and> (1 \<le> timeout_ms \<longrightarrow>
          timeout_ms \<le> 1000 * secs timeout_ms \<and> 1000 * secs timeout_ms - timeout_ms \<le> 999)
     \<and> 1000 * secs 1 - 1 = 999"
proof -
  assume unix: "system \<noteq> ''Windows''"
  have cmd: "get_ping_command system ip timeout_ms
       = [''ping'', ''-c'', ''1'', ''-W'', str_int (secs timeout_ms), ip]"
    using unix by (simp add: get_ping_command_def)
  have a: "get_ping_command system ip timeout_ms
       = [''ping'', ''-c'', ''1'', ''-W'', str_int (max 1 \<lceil>real_of_int timeout_ms / 1000\<rceil>), ip]"
    using cmd by (simp only: secs_ceiling)
  have b: "timeout_ms < 1000 \<longrightarrow>
          get_ping_command system ip timeout_ms = [''ping'', ''-c'', ''1'', ''-W'', ''1'', ip]"
    using cmd by (simp add: secs_below_1000 str_int_1)
  have c: "1 \<le> timeout_ms \<longrightarrow>
          timeout_ms \<le> 1000 * secs timeout_ms \<and> 1000 * secs timeout_ms - timeout_ms \<le> 999"
    using secs_excess by blast
  have d: "1000 * secs 1 - 1 = 999"
    by (simp add: secs_def)
  from a b c d show ?thesis by blast
qed

theorem get_ping_command_unix_timeout_witness:
  "''Linux'' \<noteq> ''Windows''
   \<and> get_ping_command ''Linux'' ''192.168.1.1'' 300
       = [''ping'', ''-c'', ''1'', ''-W'', ''1'', ''192.168.1.1'']
   \<and> (300::int) < 1000 \<and> (1::int) \<le> 300
   \<and> 300 \<le> 1000 * secs 300 \<and> 1000 * secs 300 - 300 \<le> 999"
  using get_ping_command_unix_timeout [of "''Linux''" "''192.168.1.1''" 300]
  by (simp add: str_int_1)

text \<open>
  Claim C10. For a network whose prefix is the full width, the expansion yields exactly
  the given address (which is the network address), \<^verbatim>\<open>sweep_network\<close> runs the one
  command for it and returns one entry.
\<close>

theorem single_host_range:
  assumes "ip_network (ip_parse e) cidr = Inr net"
      and "prefixlen net = max_prefixlen (version net)"
      and "1 \<le> threads"
      and "yield_order (length (hosts net)) order"
  shows "hosts net = [addr net]
     \<and> (addr net < 2 ^ max_prefixlen (version net) \<longrightarrow> network_address net = addr net)
     \<and> outcome (sweep_network e order cidr threads timeout_ms quiet)
         = Inr [entry_of (ip_str e (version net) (addr net),
                  ping_once (platform_system e) (subprocess_run e)
                    (ip_str e (version net) (addr net)) timeout_ms)]
     \<and> probed (sweep_network e order cidr threads timeout_ms quiet)
         = [get_ping_command (platform_system e) (ip_str e (version net) (addr net)) timeout_ms]"
proof -
  have "0 < max_prefixlen (version net)"
    by (cases "version net") simp_all
  with assms(2) have "prefixlen net \<noteq> max_prefixlen (version net) - 1"
    by simp
  with assms(2) have h: "hosts net = [addr net]"
    by (simp only: hosts_def if_P if_not_P not_False_eq_True)
  then have hl: "host_list e net = [ip_str e (version net) (addr net)]"
    by (simp add: host_list_def)
  have "yield_order 1 order"
    using assms(4) by (simp add: h)
  then have o: "order = [0]"
    by (rule yield_order_one)
  have a: "network_address net = addr net" if "addr net < 2 ^ max_prefixlen (version net)"
    using network_address_eq [OF assms(1) that] by (simp add: assms(2))
  have r: "outcome (sweep_network e order cidr threads timeout_ms quiet)
         = Inr [entry_of (ip_str e (version net) (addr net),
                  ping_once (platform_system e) (subprocess_run e)
                    (ip_str e (version net) (addr net)) timeout_ms)]"
    by (simp add: sweep_network_outcome [OF assms(1,3)] hl o futures_def as_completed_def)
  have p: "probed (sweep_network e order cidr threads timeout_ms quiet)
         = [get_ping_command (platform_system e) (ip_str e (version net) (addr net)) timeout_ms]"
    by (simp add: sweep_network_probed [OF assms(1,3)] hl)
  from h a r p show ?thesis
    by (intro conjI impI)
qed

theorem single_host_range_witness:
  "ip_network (ip_parse (env_example run_replies)) ''10.0.0.7/32''
     = Inr \<lparr>version = IPv4, network_address = 167772167, prefixlen = 32, addr = 167772167\<rparr>
   \<and> (32::nat) = max_prefixlen IPv4
   \<and> (1::int) \<le> 32
   \<and> yield_order
        (length (hosts \<lparr>version = IPv4, network_address = 167772167, prefixlen = 32,
                        addr = 167772167\<rparr>)) [0]
   \<and> (167772167::nat) < 2 ^ 32
   \<and> hosts \<lparr>version = IPv4, network_address = 167772167, prefixlen = 32, addr = 167772167\<rparr>
       = [167772167]
   \<and> outcome (sweep_network (env_example run_replies) [0] ''10.0.0.7/32'' 32 300 False)
       = Inr [(''10.0.0.7'', True)]
   \<and> probed (sweep_network (env_example run_replies) [0] ''10.0.0.7/32'' 32 300 False)
       = [[''ping'', ''-c'', ''1'', ''-W'', ''1'', ''10.0.0.7'']]"
proof -
  let ?e = "env_example run_replies"
  let ?net = "\<lparr>version = IPv4, network_address = 167772167, prefixlen = 32, addr = 167772167\<rparr>"
  have n: "ip_network (ip_parse ?e) ''10.0.0.7/32'' = Inr ?net"
    by (simp add: env_example_simps network_0_7)
  have m: "prefixlen ?net = max_prefixlen (version ?net)"
    by simp
  have t: "(1::int) \<le> 32"
    by simp
  have c: "yield_order (length (hosts ?net)) [0]"
    by (simp only: hosts_0_7 order_0)
  note w = single_host_range [OF n m t c, of 300 False]
  from w have r: "outcome (sweep_network ?e [0] ''10.0.0.7/32'' 32 300 False)
       = Inr [(''10.0.0.7'', True)]"
    by (simp add: env_example_simps str_0_7 entry_of_def ping_once_replies)
  from w have p: "probed (sweep_network ?e [0] ''10.0.0.7/32'' 32 300 False)
       = [[''ping'', ''-c'', ''1'', ''-W'', ''1'', ''10.0.0.7'']]"
    by (simp add: env_example_simps str_0_7 get_ping_command_def secs_def str_int_1)
  from n t c r p show ?thesis
    by (simp add: hosts_0_7)
qed

end
